theory Spec2Isabelle
  imports Main "HOL-Library.Word"
begin

section \<open>The unfinished download chunk of the renter\<close>

text \<open>
  This theory embeds \<^verbatim>\<open>modules/renter/downloadchunk.go\<close>: the per-chunk
  coordination object of a download (the UDC), its clean-up routine, its memory
  accounting, the recovery step and the two range functions for partial recovery.

  Go's \<^verbatim>\<open>int\<close> (64 bits on the supported platforms), \<^verbatim>\<open>int64\<close> and
  \<^verbatim>\<open>uint64\<close> are all 64-bit words: \<open>+\<close>, \<open>-\<close> and \<open>*\<close> wrap around as in
  Go, the conversion \<^verbatim>\<open>uint64(x)\<close> of an \<^verbatim>\<open>int\<close> keeps the bits, comparisons
  of \<^verbatim>\<open>int\<close> values are the signed ones (\<open><s\<close>, \<open>\<le>s\<close>) and comparisons of
  \<^verbatim>\<open>uint64\<close> values the unsigned ones (\<open><\<close>, \<open>\<le>\<close>).
\<close>

type_synonym uint64 = "64 word"
type_synonym go_int = "64 word"
type_synonym int64 = "64 word"

text \<open>A \<^verbatim>\<open>*worker\<close> is known to this file by its identity only.\<close>

type_synonym worker = nat

subsection \<open>Errors, panics and calls to collaborators\<close>

text \<open>
  The file builds three kinds of error value: the sentinel \<^verbatim>\<open>errNotEnoughWorkers\<close>,
  \<^verbatim>\<open>errors.AddContext(err, str)\<close> and
  \<^verbatim>\<open>fmt.Errorf("chunk %v failed: %v", index, err)\<close>. The two context strings
  are kept by what they are formatted from. \<open>ExternalError\<close> is an error that a
  collaborator (the destination) hands in.
\<close>

datatype errContext =
    WorkersContext go_int go_int go_int
  | UnableToWrite

datatype error =
    errNotEnoughWorkers
  | ExternalError string
  | AddContext error errContext
  | ChunkFailed uint64 error

text \<open>
  Ways in which a function of the file does not return: a run-time panic of Go, or the
  call of \<^verbatim>\<open>build.Critical\<close> (defined outside this file) by the sanity check
  of \<^verbatim>\<open>markPieceCompleted\<close>, with the two numbers it reports.
\<close>

datatype abort =
    Panic_IndexOutOfRange
  | Panic_NilDereference
  | Panic_DivideByZero
  | Build_Critical go_int go_int

text \<open>
  The memory manager, the parent download's \<^verbatim>\<open>managedFail\<close> and
  \<^verbatim>\<open>markComplete\<close>, and the worker's job routine are defined outside this file.
  Every call the file makes to them is appended to the log \<open>calls\<close> of the state, in
  program order; \<open>Go_threadedPerformDownloadChunkJob w\<close> is the statement
  \<^verbatim>\<open>go w.threadedPerformDownloadChunkJob(udc)\<close>.
\<close>

datatype call =
    MemoryManager_Return uint64
  | Download_managedFail error
  | Download_markComplete
  | Go_threadedPerformDownloadChunkJob worker

subsection \<open>Data\<close>

text \<open>
  The erasure coder is an interface; the file reads \<^verbatim>\<open>MinPieces()\<close> and
  \<^verbatim>\<open>SupportsPartialEncoding()\<close> of it.
\<close>

record erasureCoder =
  MinPieces :: go_int
  SupportsPartialEncoding :: "uint64 \<times> bool"

text \<open>A slice that the file sets to \<^verbatim>\<open>nil\<close> is an option: \<open>None\<close> is nil.\<close>

type_synonym bytes = "8 word list option"
type_synonym pieces = "bytes list option"

text \<open>
  The destination is an interface with the method \<^verbatim>\<open>WritePieces\<close>; what the
  sink answers is the environment's choice, so a destination is the function from the
  arguments of the call to the error returned (\<open>None\<close> is a nil error).
\<close>

type_synonym downloadDestination =
  "erasureCoder \<Rightarrow> pieces \<Rightarrow> uint64 \<Rightarrow> int64 \<Rightarrow> uint64 \<Rightarrow> error option"

text \<open>
  Of the parent download the file touches the counter \<^verbatim>\<open>chunksRemaining\<close>,
  which it decrements and compares with zero. The download is declared in another file
  of the package; the counter is taken to have 64 bits.
\<close>

record download =
  chunksRemaining :: uint64

text \<open>
  The fields of \<^verbatim>\<open>unfinishedDownloadChunk\<close> that the file reads or writes,
  under the names of the source. The fields left out (keys, cache id, chunk map,
  spending category, latency target, priority, the flags for disk fetch and memory, the
  snapshot, the mutex) occur in no statement of the file. \<open>destination = None\<close> is
  the nil interface.
\<close>

record unfinishedDownloadChunk =
  destination :: "downloadDestination option"
  erasureCode :: erasureCoder
  staticChunkIndex :: uint64
  staticChunkSize :: uint64
  staticFetchLength :: uint64
  staticFetchOffset :: uint64
  staticPieceSize :: uint64
  staticWriteOffset :: int64
  staticOverdrive :: go_int
  completedPieces :: "bool list"
  failed :: bool
  physicalChunkData :: pieces
  pieceUsage :: "bool list"
  piecesCompleted :: go_int
  piecesRegistered :: go_int
  recoveryComplete :: bool
  workersRemaining :: go_int
  workersStandby :: "worker list"
  memoryAllocated :: uint64
  download :: download
  calls :: "call list"

subsection \<open>fail\<close>

text \<open>
  \<^verbatim>\<open>for i := range udc.physicalChunkData { udc.physicalChunkData[i] = nil }\<close>:
  every entry becomes nil, the slice keeps its length; ranging over a nil slice does
  nothing.
\<close>

definition wipe :: "pieces \<Rightarrow> pieces" where
  "wipe ps = map_option (map (\<lambda>_. None)) ps"

definition fail :: "error \<Rightarrow> unfinishedDownloadChunk \<Rightarrow> unfinishedDownloadChunk" where
  "fail err udc =
     udc\<lparr> failed := True,
          recoveryComplete := True,
          physicalChunkData := wipe (physicalChunkData udc),
          calls := calls udc @ [Download_managedFail (ChunkFailed (staticChunkIndex udc) err)],
          destination := None \<rparr>"

subsection \<open>returnMemory\<close>

definition returnMemory :: "unfinishedDownloadChunk \<Rightarrow> unfinishedDownloadChunk" where
  "returnMemory udc =
     (let maxMemory0 = (workersRemaining udc + piecesCompleted udc) * staticPieceSize udc;
          maxMemory1 = (if MinPieces (erasureCode udc) \<le>s piecesCompleted udc
                        then (piecesCompleted udc + piecesRegistered udc) * staticPieceSize udc
                        else maxMemory0);
          maxMemory = (if recoveryComplete udc
                       then piecesRegistered udc * staticPieceSize udc
                       else maxMemory1)
      in if memoryAllocated udc > maxMemory
         then udc\<lparr> calls := calls udc @ [MemoryManager_Return (memoryAllocated udc - maxMemory)],
                   memoryAllocated := maxMemory \<rparr>
         else udc)"

subsection \<open>managedCleanUp\<close>

text \<open>
  The two iterations over the standby workers: the first appends each worker to the local
  slice \<^verbatim>\<open>standbyWorkers\<close>, the second starts one goroutine for each of them.
\<close>

primrec assemble :: "worker list \<Rightarrow> worker list \<Rightarrow> worker list" where
  "assemble standbyWorkers [] = standbyWorkers"
| "assemble standbyWorkers (w # ws) = assemble (standbyWorkers @ [w]) ws"

primrec queue :: "worker list \<Rightarrow> call list \<Rightarrow> call list" where
  "queue [] cs = cs"
| "queue (w # ws) cs = queue ws (cs @ [Go_threadedPerformDownloadChunkJob w])"

definition managedCleanUp :: "unfinishedDownloadChunk \<Rightarrow> unfinishedDownloadChunk" where
  "managedCleanUp udc0 =
     (let minPieces = MinPieces (erasureCode udc0);
          udc1 = (if workersRemaining udc0 + piecesCompleted udc0 <s minPieces \<and> \<not> failed udc0
                  then fail (AddContext errNotEnoughWorkers
                               (WorkersContext (workersRemaining udc0) (piecesCompleted udc0) minPieces))
                            udc0
                  else udc0);
          udc2 = returnMemory udc1
      in if failed udc2 then udc2
         else
           let chunkComplete = minPieces \<le>s piecesCompleted udc2;
               desiredPiecesRegistered = minPieces + staticOverdrive udc2 - piecesCompleted udc2;
               standbyWorkersRequired =
                 (\<not> chunkComplete \<and> piecesRegistered udc2 <s desiredPiecesRegistered)
           in if \<not> standbyWorkersRequired then udc2
              else
                let standbyWorkers = assemble [] (workersStandby udc2)
                in udc2\<lparr> workersStandby := [],
                         calls := queue standbyWorkers (calls udc2) \<rparr>)"

subsection \<open>managedFinalizeRecovery and managedRemoveWorker\<close>

definition managedFinalizeRecovery :: "unfinishedDownloadChunk \<Rightarrow> unfinishedDownloadChunk" where
  "managedFinalizeRecovery udc =
     (let udc1 = udc\<lparr> physicalChunkData := None, recoveryComplete := True \<rparr>;
          d = (download udc1)\<lparr> chunksRemaining := chunksRemaining (download udc1) - 1 \<rparr>;
          udc2 = udc1\<lparr> download := d \<rparr>
      in if chunksRemaining d = 0
         then udc2\<lparr> calls := calls udc2 @ [Download_markComplete] \<rparr>
         else udc2)"

text \<open>The state between the decrement and the call of \<^verbatim>\<open>managedCleanUp\<close>.\<close>

definition decrementWorkers :: "unfinishedDownloadChunk \<Rightarrow> unfinishedDownloadChunk" where
  "decrementWorkers udc = udc\<lparr> workersRemaining := workersRemaining udc - 1 \<rparr>"

definition managedRemoveWorker :: "unfinishedDownloadChunk \<Rightarrow> unfinishedDownloadChunk" where
  "managedRemoveWorker udc = managedCleanUp (decrementWorkers udc)"

subsection \<open>markPieceCompleted\<close>

text \<open>The counting loop of the sanity check; \<open>completed\<close> starts at 0.\<close>

primrec countCompleted :: "bool list \<Rightarrow> go_int \<Rightarrow> go_int" where
  "countCompleted [] completed = completed"
| "countCompleted (b # bs) completed = countCompleted bs (if b then completed + 1 else completed)"

text \<open>
  Writing \<^verbatim>\<open>completedPieces[pieceIndex]\<close> outside the slice panics. The sanity
  check runs only when \<^verbatim>\<open>build.DEBUG\<close> is set, which is a parameter here.
\<close>

definition markPieceCompleted ::
  "bool \<Rightarrow> uint64 \<Rightarrow> unfinishedDownloadChunk \<Rightarrow> abort + unfinishedDownloadChunk" where
  "markPieceCompleted DEBUG pieceIndex udc =
     (if length (completedPieces udc) \<le> unat pieceIndex then Inl Panic_IndexOutOfRange
      else
        let udc1 = udc\<lparr> completedPieces := (completedPieces udc)[unat pieceIndex := True],
                        piecesCompleted := piecesCompleted udc + 1 \<rparr>
        in if \<not> DEBUG then Inr udc1
           else
             let completed = countCompleted (completedPieces udc1) 0
             in if completed \<noteq> piecesCompleted udc1
                then Inl (Build_Critical completed (piecesCompleted udc1))
                else Inr udc1)"

subsection \<open>The range functions\<close>

definition recoveredDataOffset :: "uint64 \<Rightarrow> erasureCoder \<Rightarrow> abort + uint64" where
  "recoveredDataOffset chunkFetchOffset rs =
     (let (segmentSize, supportsPartial) = SupportsPartialEncoding rs
      in if \<not> supportsPartial then Inr chunkFetchOffset
         else
           let recoveredSegmentSize = MinPieces rs * segmentSize
           in if recoveredSegmentSize = 0 then Inl Panic_DivideByZero
              else Inr (chunkFetchOffset mod recoveredSegmentSize))"

text \<open>
  Modelled from the spec: \<^verbatim>\<open>segmentsForRecovery\<close> is called by
  \<^verbatim>\<open>bytesToRecover\<close> but defined in another file of the package. The
  specification gives, with \<open>recoveredSegmentSize = MinPieces \<times> segmentSize\<close>, the
  number of segments as the ceiling of \<open>(offset + length) / recoveredSegmentSize\<close>
  minus the floor of \<open>offset / recoveredSegmentSize\<close>; the first component is the
  first segment, which \<^verbatim>\<open>bytesToRecover\<close> drops. The quotients are those of
  the natural numbers; a segment size of zero is a division by zero.
\<close>

definition ceilDiv :: "nat \<Rightarrow> nat \<Rightarrow> nat" where
  "ceilDiv a b = (a + b - 1) div b"

definition segmentsForRecovery ::
  "uint64 \<Rightarrow> uint64 \<Rightarrow> erasureCoder \<Rightarrow> abort + (uint64 \<times> uint64)" where
  "segmentsForRecovery chunkFetchOffset chunkFetchLength rs =
     (let (segmentSize, supportsPartial) = SupportsPartialEncoding rs;
          recoveredSegmentSize = MinPieces rs * segmentSize
      in if recoveredSegmentSize = 0 then Inl Panic_DivideByZero
         else
           let startSegment = unat chunkFetchOffset div unat recoveredSegmentSize;
               endSegment = ceilDiv (unat chunkFetchOffset + unat chunkFetchLength)
                                    (unat recoveredSegmentSize)
           in Inr (of_nat startSegment, of_nat (endSegment - startSegment)))"

definition bytesToRecover ::
  "uint64 \<Rightarrow> uint64 \<Rightarrow> uint64 \<Rightarrow> erasureCoder \<Rightarrow> abort + uint64" where
  "bytesToRecover chunkFetchOffset chunkFetchLength chunkSize rs =
     (let (segmentSize, supportsPartial) = SupportsPartialEncoding rs
      in if \<not> supportsPartial then Inr chunkSize
         else
           let recoveredSegmentSize = MinPieces rs * segmentSize
           in case segmentsForRecovery chunkFetchOffset chunkFetchLength rs of
                Inl a \<Rightarrow> Inl a
              | Inr (startSegment, numSegments) \<Rightarrow> Inr (numSegments * recoveredSegmentSize))"

subsection \<open>threadedRecoverLogicalData\<close>

text \<open>
  The result is the state after the deferred \<^verbatim>\<open>managedCleanUp\<close> together with
  the error returned. Calling \<^verbatim>\<open>WritePieces\<close> on the nil interface (the
  destination of a chunk that \<^verbatim>\<open>fail\<close> has been called on) is a nil
  dereference.
\<close>

definition threadedRecoverLogicalData ::
  "unfinishedDownloadChunk \<Rightarrow> abort + (unfinishedDownloadChunk \<times> error option)" where
  "threadedRecoverLogicalData udc =
     (case recoveredDataOffset (staticFetchOffset udc) (erasureCode udc) of
        Inl a \<Rightarrow> Inl a
      | Inr dataOffset \<Rightarrow>
          (case destination udc of
             None \<Rightarrow> Inl Panic_NilDereference
           | Some WritePieces \<Rightarrow>
               (case WritePieces (erasureCode udc) (physicalChunkData udc) dataOffset
                       (staticWriteOffset udc) (staticFetchLength udc) of
                  Some err \<Rightarrow>
                    Inr (managedCleanUp (fail err udc), Some (AddContext err UnableToWrite))
                | None \<Rightarrow>
                    Inr (managedCleanUp (managedFinalizeRecovery udc), None))))"

subsection \<open>Sequences of operations\<close>

text \<open>
  The operations of the file, as the rest of the package calls them on one chunk, one
  after the other under the chunk's lock. A sequence stops at the first operation that
  does not return.
\<close>

datatype operation =
    Fail error
  | ManagedCleanUp
  | ManagedFinalizeRecovery
  | ManagedRemoveWorker
  | MarkPieceCompleted uint64
  | ReturnMemory
  | ThreadedRecoverLogicalData

fun perform ::
  "bool \<Rightarrow> operation \<Rightarrow> unfinishedDownloadChunk \<Rightarrow> abort + unfinishedDownloadChunk" where
  "perform DEBUG (Fail err) udc = Inr (fail err udc)"
| "perform DEBUG ManagedCleanUp udc = Inr (managedCleanUp udc)"
| "perform DEBUG ManagedFinalizeRecovery udc = Inr (managedFinalizeRecovery udc)"
| "perform DEBUG ManagedRemoveWorker udc = Inr (managedRemoveWorker udc)"
| "perform DEBUG (MarkPieceCompleted pieceIndex) udc = markPieceCompleted DEBUG pieceIndex udc"
| "perform DEBUG ReturnMemory udc = Inr (returnMemory udc)"
| "perform DEBUG ThreadedRecoverLogicalData udc =
     (case threadedRecoverLogicalData udc of Inl a \<Rightarrow> Inl a | Inr (udc', err) \<Rightarrow> Inr udc')"

fun performAll ::
  "bool \<Rightarrow> operation list \<Rightarrow> unfinishedDownloadChunk \<Rightarrow> abort + unfinishedDownloadChunk" where
  "performAll DEBUG [] udc = Inr udc"
| "performAll DEBUG (c # cs) udc =
     (case perform DEBUG c udc of Inl a \<Rightarrow> Inl a | Inr udc' \<Rightarrow> performAll DEBUG cs udc')"

subsection \<open>Predicates of the specification\<close>

text \<open>The number of true entries of a bit set.\<close>

definition popcount :: "bool list \<Rightarrow> nat" where
  "popcount bs = length (filter (\<lambda>b. b) bs)"

text \<open>The counter of completed pieces agrees with the bit set.\<close>

definition consistent :: "unfinishedDownloadChunk \<Rightarrow> bool" where
  "consistent udc \<longleftrightarrow> sint (piecesCompleted udc) = int (popcount (completedPieces udc))"

text \<open>The length of a Go slice is an \<^verbatim>\<open>int\<close>.\<close>

definition sliceLen :: "unfinishedDownloadChunk \<Rightarrow> bool" where
  "sliceLen udc \<longleftrightarrow> length (completedPieces udc) < 2 ^ 63"

text \<open>
  Registration is exclusive: a piece is marked completed at most once. \<open>exclusive\<close>
  says so of one operation in the state it is applied to, \<open>orderly\<close> of every
  operation of a sequence.
\<close>

fun exclusive :: "operation \<Rightarrow> unfinishedDownloadChunk \<Rightarrow> bool" where
  "exclusive (MarkPieceCompleted pieceIndex) udc =
     (\<not> (unat pieceIndex < length (completedPieces udc) \<and> completedPieces udc ! unat pieceIndex))"
| "exclusive c udc = True"

fun orderly :: "bool \<Rightarrow> operation list \<Rightarrow> unfinishedDownloadChunk \<Rightarrow> bool" where
  "orderly DEBUG [] udc = True"
| "orderly DEBUG (c # cs) udc =
     (exclusive c udc \<and>
      (case perform DEBUG c udc of Inl a \<Rightarrow> True | Inr udc' \<Rightarrow> orderly DEBUG cs udc'))"

text \<open>The states of the chunk's state machine that the claims name.\<close>

definition Done :: "unfinishedDownloadChunk \<Rightarrow> bool" where
  "Done udc \<longleftrightarrow> recoveryComplete udc \<and> \<not> failed udc"

text \<open>
  The used-memory formula in the specification's words: (workers remaining + pieces
  completed) times the piece size before recovery, pieces registered times the piece size
  after recovery.
\<close>

definition specUsedMemory :: "unfinishedDownloadChunk \<Rightarrow> uint64" where
  "specUsedMemory udc =
     (if recoveryComplete udc then piecesRegistered udc * staticPieceSize udc
      else (workersRemaining udc + piecesCompleted udc) * staticPieceSize udc)"

text \<open>The bound that \<^verbatim>\<open>returnMemory\<close> computes, by its three cases.\<close>

definition maxMemory :: "unfinishedDownloadChunk \<Rightarrow> uint64" where
  "maxMemory udc =
     (if recoveryComplete udc then piecesRegistered udc * staticPieceSize udc
      else if MinPieces (erasureCode udc) \<le>s piecesCompleted udc
      then (piecesCompleted udc + piecesRegistered udc) * staticPieceSize udc
      else (workersRemaining udc + piecesCompleted udc) * staticPieceSize udc)"

text \<open>
  The state after the two assignments of \<^verbatim>\<open>markPieceCompleted\<close>.
\<close>

definition marked :: "uint64 \<Rightarrow> unfinishedDownloadChunk \<Rightarrow> unfinishedDownloadChunk" where
  "marked pieceIndex udc =
     udc\<lparr> completedPieces := (completedPieces udc)[unat pieceIndex := True],
          piecesCompleted := piecesCompleted udc + 1 \<rparr>"

subsection \<open>Reading the log of calls\<close>

text \<open>
  The calls that an operation has added to the log, and what they carry: the errors
  passed to \<^verbatim>\<open>managedFail\<close>, the number of bytes given back to the memory
  manager, the workers for which a job was started, and the number of calls of
  \<^verbatim>\<open>markComplete\<close>.
\<close>

definition newCalls :: "unfinishedDownloadChunk \<Rightarrow> unfinishedDownloadChunk \<Rightarrow> call list" where
  "newCalls udc udc' = drop (length (calls udc)) (calls udc')"

fun failures :: "call list \<Rightarrow> error list" where
  "failures [] = []"
| "failures (Download_managedFail e # cs) = e # failures cs"
| "failures (c # cs) = failures cs"

fun returned :: "call list \<Rightarrow> nat" where
  "returned [] = 0"
| "returned (MemoryManager_Return n # cs) = unat n + returned cs"
| "returned (c # cs) = returned cs"

fun jobs :: "call list \<Rightarrow> worker list" where
  "jobs [] = []"
| "jobs (Go_threadedPerformDownloadChunkJob w # cs) = w # jobs cs"
| "jobs (c # cs) = jobs cs"

fun completions :: "call list \<Rightarrow> nat" where
  "completions [] = 0"
| "completions (Download_markComplete # cs) = Suc (completions cs)"
| "completions (c # cs) = completions cs"

subsection \<open>The steps of managedCleanUp\<close>

text \<open>
  \<open>starved\<close> is the test of the first step of \<^verbatim>\<open>managedCleanUp\<close>,
  \<open>afterCheck\<close> the state after its first two steps (the test with the call of
  \<^verbatim>\<open>fail\<close>, and \<^verbatim>\<open>returnMemory\<close>), \<open>required\<close> the condition under
  which the last step is reached and finds standby workers required, and \<open>bound\<close> the
  memory bound that the second step applies.
\<close>

definition starved :: "unfinishedDownloadChunk \<Rightarrow> bool" where
  "starved udc \<longleftrightarrow>
     workersRemaining udc + piecesCompleted udc <s MinPieces (erasureCode udc) \<and> \<not> failed udc"

definition afterCheck :: "unfinishedDownloadChunk \<Rightarrow> unfinishedDownloadChunk" where
  "afterCheck udc =
     returnMemory (if starved udc
        then fail (AddContext errNotEnoughWorkers
               (WorkersContext (workersRemaining udc) (piecesCompleted udc) (MinPieces (erasureCode udc))))
               udc
        else udc)"

definition required :: "unfinishedDownloadChunk \<Rightarrow> bool" where
  "required udc \<longleftrightarrow>
     \<not> failed udc \<and>
     \<not> workersRemaining udc + piecesCompleted udc <s MinPieces (erasureCode udc) \<and>
     piecesCompleted udc <s MinPieces (erasureCode udc) \<and>
     piecesRegistered udc <s MinPieces (erasureCode udc) + staticOverdrive udc - piecesCompleted udc"

definition bound :: "unfinishedDownloadChunk \<Rightarrow> uint64" where
  "bound udc = (if starved udc then piecesRegistered udc * staticPieceSize udc else maxMemory udc)"

subsection \<open>Example chunks\<close>

text \<open>
  The chunk of the specification's scenarios: three of five pieces are needed, a piece
  has 40 bytes, five workers, memory for five pieces; the coder recovers in segments of
  8 bytes per piece.
\<close>

definition coder :: erasureCoder where
  "coder = \<lparr> MinPieces = 3, SupportsPartialEncoding = (8, True) \<rparr>"

definition goodSink :: downloadDestination where
  "goodSink = (\<lambda>rs ps dataOffset writeOffset len. None)"

definition badSink :: downloadDestination where
  "badSink = (\<lambda>rs ps dataOffset writeOffset len. Some (ExternalError ''short write''))"

definition chunk :: unfinishedDownloadChunk where
  "chunk = \<lparr> destination = Some goodSink, erasureCode = coder, staticChunkIndex = 0,
     staticChunkSize = 120, staticFetchLength = 120, staticFetchOffset = 0,
     staticPieceSize = 40, staticWriteOffset = 0, staticOverdrive = 0,
     completedPieces = [False, False, False, False, False], failed = False,
     physicalChunkData = Some [None, None, None, None, None],
     pieceUsage = [False, False, False, False, False],
     piecesCompleted = 0, piecesRegistered = 0, recoveryComplete = False,
     workersRemaining = 5, workersStandby = [], memoryAllocated = 200,
     download = \<lparr> chunksRemaining = 1 \<rparr>, calls = [] \<rparr>"

text \<open>
  \<open>recovering\<close>: three pieces are complete, one overdrive piece is still being
  fetched. \<open>fetching\<close>: three workers are left, two of them are fetching a piece.
  \<open>waiting\<close>: one piece is being fetched and two workers are on standby.
\<close>

definition recovering :: unfinishedDownloadChunk where
  "recovering = chunk\<lparr> staticOverdrive := 1,
     completedPieces := [True, True, True, False, False],
     pieceUsage := [False, False, False, True, False],
     piecesCompleted := 3, piecesRegistered := 1, workersRemaining := 3 \<rparr>"

definition fetching :: unfinishedDownloadChunk where
  "fetching = chunk\<lparr> pieceUsage := [True, True, False, False, False],
     piecesRegistered := 2, workersRemaining := 3, memoryAllocated := 120 \<rparr>"

definition waiting :: unfinishedDownloadChunk where
  "waiting = chunk\<lparr> pieceUsage := [True, False, False, False, False],
     piecesRegistered := 1, workersStandby := [7, 9] \<rparr>"

text \<open>
  \<open>written\<close>: three pieces have arrived and recovery can start. \<open>broken\<close>: the
  same chunk with a destination whose write fails.
\<close>

definition written :: unfinishedDownloadChunk where
  "written = chunk\<lparr> completedPieces := [True, True, True, False, False],
     physicalChunkData := Some [Some [1], Some [2], Some [3], None, None],
     piecesCompleted := 3 \<rparr>"

definition broken :: unfinishedDownloadChunk where
  "broken = written\<lparr> destination := Some badSink \<rparr>"

section \<open>Properties\<close>

subsection \<open>Basic facts\<close>

lemma assemble_append: "assemble acc ws = acc @ ws"
  by (induction ws arbitrary: acc) simp_all

lemma queue_append: "queue ws cs = cs @ map Go_threadedPerformDownloadChunkJob ws"
  by (induction ws arbitrary: cs) simp_all

lemma failures_append [simp]: "failures (xs @ ys) = failures xs @ failures ys"
  by (induction xs rule: failures.induct) simp_all

lemma returned_append [simp]: "returned (xs @ ys) = returned xs + returned ys"
  by (induction xs rule: returned.induct) simp_all

lemma jobs_append [simp]: "jobs (xs @ ys) = jobs xs @ jobs ys"
  by (induction xs rule: jobs.induct) simp_all

lemma completions_append [simp]: "completions (xs @ ys) = completions xs + completions ys"
  by (induction xs rule: completions.induct) simp_all

lemma jobs_map [simp]: "jobs (map Go_threadedPerformDownloadChunkJob ws) = ws"
  by (induction ws) simp_all

lemma failures_map [simp]: "failures (map Go_threadedPerformDownloadChunkJob ws) = []"
  by (induction ws) simp_all

lemma returned_map [simp]: "returned (map Go_threadedPerformDownloadChunkJob ws) = 0"
  by (induction ws) simp_all

lemma completions_map [simp]: "completions (map Go_threadedPerformDownloadChunkJob ws) = 0"
  by (induction ws) simp_all

text \<open>What each function appends to the log.\<close>

lemma fail_calls:
  "calls (fail err udc) = calls udc @ [Download_managedFail (ChunkFailed (staticChunkIndex udc) err)]"
  by (simp add: fail_def)

lemma returnMemory_calls:
  "calls (returnMemory udc) =
     calls udc @ (if maxMemory udc < memoryAllocated udc
                  then [MemoryManager_Return (memoryAllocated udc - maxMemory udc)] else [])"
  by (simp add: returnMemory_def maxMemory_def Let_def)

lemma returnMemory_memoryAllocated:
  "memoryAllocated (returnMemory udc) = min (memoryAllocated udc) (maxMemory udc)"
  by (auto simp add: returnMemory_def maxMemory_def Let_def min_def)

subsection \<open>What fail and returnMemory change\<close>

lemma fail_fields [simp]:
  "failed (fail err udc) = True"
  "recoveryComplete (fail err udc) = True"
  "destination (fail err udc) = None"
  "physicalChunkData (fail err udc) = wipe (physicalChunkData udc)"
  "erasureCode (fail err udc) = erasureCode udc"
  "staticOverdrive (fail err udc) = staticOverdrive udc"
  "staticPieceSize (fail err udc) = staticPieceSize udc"
  "completedPieces (fail err udc) = completedPieces udc"
  "piecesCompleted (fail err udc) = piecesCompleted udc"
  "piecesRegistered (fail err udc) = piecesRegistered udc"
  "workersRemaining (fail err udc) = workersRemaining udc"
  "workersStandby (fail err udc) = workersStandby udc"
  "memoryAllocated (fail err udc) = memoryAllocated udc"
  "download (fail err udc) = download udc"
  by (simp_all add: fail_def)

lemma returnMemory_fields [simp]:
  "failed (returnMemory udc) = failed udc"
  "recoveryComplete (returnMemory udc) = recoveryComplete udc"
  "destination (returnMemory udc) = destination udc"
  "physicalChunkData (returnMemory udc) = physicalChunkData udc"
  "erasureCode (returnMemory udc) = erasureCode udc"
  "staticOverdrive (returnMemory udc) = staticOverdrive udc"
  "staticPieceSize (returnMemory udc) = staticPieceSize udc"
  "completedPieces (returnMemory udc) = completedPieces udc"
  "piecesCompleted (returnMemory udc) = piecesCompleted udc"
  "piecesRegistered (returnMemory udc) = piecesRegistered udc"
  "workersRemaining (returnMemory udc) = workersRemaining udc"
  "workersStandby (returnMemory udc) = workersStandby udc"
  "download (returnMemory udc) = download udc"
  by (simp_all add: returnMemory_def Let_def)

subsection \<open>managedCleanUp, step by step\<close>

lemma afterCheck_fields [simp]:
  "erasureCode (afterCheck udc) = erasureCode udc"
  "staticOverdrive (afterCheck udc) = staticOverdrive udc"
  "staticPieceSize (afterCheck udc) = staticPieceSize udc"
  "completedPieces (afterCheck udc) = completedPieces udc"
  "piecesCompleted (afterCheck udc) = piecesCompleted udc"
  "piecesRegistered (afterCheck udc) = piecesRegistered udc"
  "workersRemaining (afterCheck udc) = workersRemaining udc"
  "workersStandby (afterCheck udc) = workersStandby udc"
  "download (afterCheck udc) = download udc"
  by (simp_all add: afterCheck_def)

lemma afterCheck_flags:
  "failed (afterCheck udc) = (failed udc \<or> starved udc)"
  "recoveryComplete (afterCheck udc) = (recoveryComplete udc \<or> starved udc)"
  "destination (afterCheck udc) = (if starved udc then None else destination udc)"
  "physicalChunkData (afterCheck udc) =
     (if starved udc then wipe (physicalChunkData udc) else physicalChunkData udc)"
  by (simp_all add: afterCheck_def)

lemma maxMemory_fail: "maxMemory (fail err udc) = piecesRegistered udc * staticPieceSize udc"
  by (simp add: maxMemory_def)

lemma afterCheck_memoryAllocated:
  "memoryAllocated (afterCheck udc) = min (memoryAllocated udc) (bound udc)"
  by (simp add: afterCheck_def returnMemory_memoryAllocated maxMemory_fail bound_def)

lemma afterCheck_calls:
  "calls (afterCheck udc) =
     calls udc
     @ (if starved udc
        then [Download_managedFail (ChunkFailed (staticChunkIndex udc)
                (AddContext errNotEnoughWorkers
                   (WorkersContext (workersRemaining udc) (piecesCompleted udc)
                      (MinPieces (erasureCode udc)))))]
        else [])
     @ (if bound udc < memoryAllocated udc
        then [MemoryManager_Return (memoryAllocated udc - bound udc)] else [])"
  by (simp add: afterCheck_def returnMemory_calls maxMemory_fail bound_def fail_calls)

lemma cleanUp_starved: "starved udc \<Longrightarrow> managedCleanUp udc = afterCheck udc"
  unfolding managedCleanUp_def Let_def afterCheck_def starved_def[symmetric]
  by simp

lemma cleanUp_failed: "failed udc \<Longrightarrow> managedCleanUp udc = afterCheck udc"
  unfolding managedCleanUp_def Let_def afterCheck_def starved_def[symmetric]
  by simp

lemma cleanUp_complete:
  "MinPieces (erasureCode udc) \<le>s piecesCompleted udc \<Longrightarrow> managedCleanUp udc = afterCheck udc"
  unfolding managedCleanUp_def Let_def afterCheck_def starved_def[symmetric]
  by simp

lemma cleanUp_enough:
  "\<not> piecesRegistered udc <s MinPieces (erasureCode udc) + staticOverdrive udc - piecesCompleted udc
   \<Longrightarrow> managedCleanUp udc = afterCheck udc"
  unfolding managedCleanUp_def Let_def afterCheck_def starved_def[symmetric]
  by simp

lemma required_iff:
  "required udc \<longleftrightarrow>
     \<not> failed udc \<and> \<not> starved udc \<and> \<not> MinPieces (erasureCode udc) \<le>s piecesCompleted udc \<and>
     piecesRegistered udc <s MinPieces (erasureCode udc) + staticOverdrive udc - piecesCompleted udc"
  unfolding required_def starved_def signed.not_le
  by blast

lemma cleanUp_required:
  assumes "required udc"
  shows "managedCleanUp udc =
     (afterCheck udc)\<lparr> workersStandby := [],
        calls := calls (afterCheck udc) @ map Go_threadedPerformDownloadChunkJob (workersStandby udc) \<rparr>"
proof -
  from assms have "\<not> failed udc" "\<not> starved udc"
    "\<not> MinPieces (erasureCode udc) \<le>s piecesCompleted udc"
    "piecesRegistered udc <s MinPieces (erasureCode udc) + staticOverdrive udc - piecesCompleted udc"
    by (simp_all add: required_iff)
  then show ?thesis
    unfolding managedCleanUp_def Let_def afterCheck_def starved_def[symmetric]
    by (simp add: assemble_append queue_append)
qed

lemma managedCleanUp_unfold:
  "managedCleanUp udc =
     (if required udc
      then (afterCheck udc)\<lparr> workersStandby := [],
              calls := calls (afterCheck udc) @ map Go_threadedPerformDownloadChunkJob (workersStandby udc) \<rparr>
      else afterCheck udc)"
proof (cases "required udc")
  case True
  then show ?thesis by (simp add: cleanUp_required)
next
  case False
  then consider "failed udc" | "starved udc" | "MinPieces (erasureCode udc) \<le>s piecesCompleted udc"
    | "\<not> piecesRegistered udc <s MinPieces (erasureCode udc) + staticOverdrive udc - piecesCompleted udc"
    unfolding required_iff by blast
  then have "managedCleanUp udc = afterCheck udc"
    by cases (rule cleanUp_failed cleanUp_starved cleanUp_complete cleanUp_enough, assumption)+
  with False show ?thesis by simp
qed

lemma managedCleanUp_fields [simp]:
  "erasureCode (managedCleanUp udc) = erasureCode udc"
  "staticOverdrive (managedCleanUp udc) = staticOverdrive udc"
  "staticPieceSize (managedCleanUp udc) = staticPieceSize udc"
  "completedPieces (managedCleanUp udc) = completedPieces udc"
  "piecesCompleted (managedCleanUp udc) = piecesCompleted udc"
  "piecesRegistered (managedCleanUp udc) = piecesRegistered udc"
  "workersRemaining (managedCleanUp udc) = workersRemaining udc"
  "download (managedCleanUp udc) = download udc"
  by (simp_all add: managedCleanUp_unfold)

lemma managedCleanUp_flags:
  "failed (managedCleanUp udc) = (failed udc \<or> starved udc)"
  "recoveryComplete (managedCleanUp udc) = (recoveryComplete udc \<or> starved udc)"
  "destination (managedCleanUp udc) = (if starved udc then None else destination udc)"
  "physicalChunkData (managedCleanUp udc) =
     (if starved udc then wipe (physicalChunkData udc) else physicalChunkData udc)"
  "memoryAllocated (managedCleanUp udc) = min (memoryAllocated udc) (bound udc)"
  "workersStandby (managedCleanUp udc) = (if required udc then [] else workersStandby udc)"
  by (simp_all add: managedCleanUp_unfold afterCheck_flags afterCheck_memoryAllocated)

lemma managedCleanUp_calls:
  "calls (managedCleanUp udc) =
     calls udc
     @ (if starved udc
        then [Download_managedFail (ChunkFailed (staticChunkIndex udc)
                (AddContext errNotEnoughWorkers
                   (WorkersContext (workersRemaining udc) (piecesCompleted udc)
                      (MinPieces (erasureCode udc)))))]
        else [])
     @ (if bound udc < memoryAllocated udc
        then [MemoryManager_Return (memoryAllocated udc - bound udc)] else [])
     @ (if required udc then map Go_threadedPerformDownloadChunkJob (workersStandby udc) else [])"
  by (simp add: managedCleanUp_unfold afterCheck_calls)


lemma newCalls_append [simp]: "calls udc' = calls udc @ cs \<Longrightarrow> newCalls udc udc' = cs"
  by (simp add: newCalls_def)

lemma newCalls_managedCleanUp:
  "newCalls udc (managedCleanUp udc) =
     (if starved udc
        then [Download_managedFail (ChunkFailed (staticChunkIndex udc)
                (AddContext errNotEnoughWorkers
                   (WorkersContext (workersRemaining udc) (piecesCompleted udc)
                      (MinPieces (erasureCode udc)))))]
        else [])
     @ (if bound udc < memoryAllocated udc
        then [MemoryManager_Return (memoryAllocated udc - bound udc)] else [])
     @ (if required udc then map Go_threadedPerformDownloadChunkJob (workersStandby udc) else [])"
  by (rule newCalls_append) (rule managedCleanUp_calls)

lemma newCalls_returnMemory:
  "newCalls udc (returnMemory udc) =
     (if maxMemory udc < memoryAllocated udc
      then [MemoryManager_Return (memoryAllocated udc - maxMemory udc)] else [])"
  by (rule newCalls_append) (rule returnMemory_calls)

lemma returned_excess:
  "returned (if (m::uint64) < a then [MemoryManager_Return (a - m)] else []) = unat a - unat m"
  by (simp add: unat_sub word_less_nat_alt word_le_nat_alt)

subsection \<open>The other operations\<close>

lemma managedFinalizeRecovery_fields [simp]:
  "physicalChunkData (managedFinalizeRecovery udc) = None"
  "recoveryComplete (managedFinalizeRecovery udc) = True"
  "failed (managedFinalizeRecovery udc) = failed udc"
  "destination (managedFinalizeRecovery udc) = destination udc"
  "erasureCode (managedFinalizeRecovery udc) = erasureCode udc"
  "staticChunkIndex (managedFinalizeRecovery udc) = staticChunkIndex udc"
  "staticPieceSize (managedFinalizeRecovery udc) = staticPieceSize udc"
  "completedPieces (managedFinalizeRecovery udc) = completedPieces udc"
  "piecesCompleted (managedFinalizeRecovery udc) = piecesCompleted udc"
  "piecesRegistered (managedFinalizeRecovery udc) = piecesRegistered udc"
  "workersRemaining (managedFinalizeRecovery udc) = workersRemaining udc"
  "memoryAllocated (managedFinalizeRecovery udc) = memoryAllocated udc"
  "chunksRemaining (download (managedFinalizeRecovery udc)) = chunksRemaining (download udc) - 1"
  by (simp_all add: managedFinalizeRecovery_def Let_def)

lemma managedFinalizeRecovery_calls:
  "calls (managedFinalizeRecovery udc) =
     calls udc @ (if chunksRemaining (download udc) - 1 = 0 then [Download_markComplete] else [])"
  by (simp add: managedFinalizeRecovery_def Let_def)

lemma decrementWorkers_fields [simp]:
  "workersRemaining (decrementWorkers udc) = workersRemaining udc - 1"
  "failed (decrementWorkers udc) = failed udc"
  "recoveryComplete (decrementWorkers udc) = recoveryComplete udc"
  "completedPieces (decrementWorkers udc) = completedPieces udc"
  "piecesCompleted (decrementWorkers udc) = piecesCompleted udc"
  by (simp_all add: decrementWorkers_def)

lemma marked_fields [simp]:
  "workersRemaining (marked p udc) = workersRemaining udc"
  "failed (marked p udc) = failed udc"
  "recoveryComplete (marked p udc) = recoveryComplete udc"
  "completedPieces (marked p udc) = (completedPieces udc)[unat p := True]"
  "piecesCompleted (marked p udc) = piecesCompleted udc + 1"
  by (simp_all add: marked_def)

lemma fail_more_fields [simp]:
  "staticChunkIndex (fail err udc) = staticChunkIndex udc"
  by (simp add: fail_def)

lemma markPieceCompleted_Inr:
  assumes "markPieceCompleted DEBUG p udc = Inr udc'"
  shows "udc' = marked p udc \<and> unat p < length (completedPieces udc)"
proof (cases "length (completedPieces udc) \<le> unat p")
  case True
  with assms show ?thesis by (simp add: markPieceCompleted_def)
next
  case False
  with assms show ?thesis
    unfolding markPieceCompleted_def Let_def marked_def[symmetric]
    by (simp split: if_splits)
qed

lemma threadedRecoverLogicalData_Inr:
  assumes "threadedRecoverLogicalData udc = Inr (udc', e)"
  shows "(\<exists>err. udc' = managedCleanUp (fail err udc)) \<or>
         udc' = managedCleanUp (managedFinalizeRecovery udc)"
  using assms unfolding threadedRecoverLogicalData_def
  by (auto split: sum.splits option.splits)

text \<open>The state that an operation returns is one of eight.\<close>

lemma perform_Inr:
  assumes "perform DEBUG c udc = Inr udc'"
  obtains err where "udc' = fail err udc"
  | "udc' = managedCleanUp udc"
  | "udc' = managedFinalizeRecovery udc"
  | "c = ManagedRemoveWorker" "udc' = managedCleanUp (decrementWorkers udc)"
  | p where "c = MarkPieceCompleted p" "udc' = marked p udc" "unat p < length (completedPieces udc)"
  | "udc' = returnMemory udc"
  | err where "udc' = managedCleanUp (fail err udc)"
  | "udc' = managedCleanUp (managedFinalizeRecovery udc)"
proof (cases c)
  case (Fail err)
  with assms that(1) show ?thesis by auto
next
  case ManagedCleanUp
  with assms that(2) show ?thesis by auto
next
  case ManagedFinalizeRecovery
  with assms that(3) show ?thesis by auto
next
  case ManagedRemoveWorker
  with assms that(4) show ?thesis by (auto simp add: managedRemoveWorker_def)
next
  case (MarkPieceCompleted p)
  with assms that(5) markPieceCompleted_Inr [of DEBUG p udc udc'] show ?thesis by auto
next
  case ReturnMemory
  with assms that(6) show ?thesis by auto
next
  case ThreadedRecoverLogicalData
  with assms obtain e where "threadedRecoverLogicalData udc = Inr (udc', e)"
    by (auto split: sum.splits)
  from threadedRecoverLogicalData_Inr [OF this] that(7) that(8) show ?thesis by blast
qed

lemma perform_failed:
  assumes "perform DEBUG c udc = Inr udc'" and "failed udc"
  shows "failed udc'"
  using assms(1)
  by (rule perform_Inr) (simp_all add: assms(2) managedCleanUp_flags)

lemma perform_recoveryComplete:
  assumes "perform DEBUG c udc = Inr udc'" and "recoveryComplete udc"
  shows "recoveryComplete udc'"
  using assms(1)
  by (rule perform_Inr) (simp_all add: assms(2) managedCleanUp_flags)

lemma perform_invariant:
  assumes "perform DEBUG c udc = Inr udc'" and "failed udc \<longrightarrow> recoveryComplete udc"
  shows "failed udc' \<longrightarrow> recoveryComplete udc'"
  using assms(1)
  by (rule perform_Inr) (use assms(2) in \<open>auto simp add: managedCleanUp_flags\<close>)

lemma performAll_failed:
  "performAll DEBUG cs udc = Inr udc' \<Longrightarrow> failed udc \<Longrightarrow> failed udc'"
proof (induction cs arbitrary: udc)
  case Nil
  then show ?case by simp
next
  case (Cons c cs)
  from Cons.prems(1) obtain udc1 where s: "perform DEBUG c udc = Inr udc1"
    and r: "performAll DEBUG cs udc1 = Inr udc'"
    by (auto split: sum.splits)
  from perform_failed [OF s Cons.prems(2)] Cons.IH [OF r] show ?case by blast
qed

lemma performAll_recoveryComplete:
  "performAll DEBUG cs udc = Inr udc' \<Longrightarrow> recoveryComplete udc \<Longrightarrow> recoveryComplete udc'"
proof (induction cs arbitrary: udc)
  case Nil
  then show ?case by simp
next
  case (Cons c cs)
  from Cons.prems(1) obtain udc1 where s: "perform DEBUG c udc = Inr udc1"
    and r: "performAll DEBUG cs udc1 = Inr udc'"
    by (auto split: sum.splits)
  from perform_recoveryComplete [OF s Cons.prems(2)] Cons.IH [OF r] show ?case by blast
qed

lemma performAll_invariant:
  "performAll DEBUG cs udc = Inr udc' \<Longrightarrow> failed udc \<longrightarrow> recoveryComplete udc \<Longrightarrow>
   failed udc' \<longrightarrow> recoveryComplete udc'"
proof (induction cs arbitrary: udc)
  case Nil
  then show ?case by simp
next
  case (Cons c cs)
  from Cons.prems(1) obtain udc1 where s: "perform DEBUG c udc = Inr udc1"
    and r: "performAll DEBUG cs udc1 = Inr udc'"
    by (auto split: sum.splits)
  from perform_invariant [OF s Cons.prems(2)] Cons.IH [OF r] show ?case by blast
qed


lemma starved_failed [simp]: "failed udc \<Longrightarrow> \<not> starved udc"
  by (simp add: starved_def)

lemma required_failed [simp]: "failed udc \<Longrightarrow> \<not> required udc"
  by (simp add: required_def)

lemma bound_recoveryComplete:
  "recoveryComplete udc \<Longrightarrow> bound udc = piecesRegistered udc * staticPieceSize udc"
  by (simp add: bound_def maxMemory_def)

lemma wipe_None [simp]: "wipe None = None"
  by (simp add: wipe_def)

lemma wipe_entries: "wipe ps = Some qs \<Longrightarrow> p \<in> set qs \<Longrightarrow> p = None"
  by (auto simp add: wipe_def)

lemma failures_excess [simp]:
  "failures (if (m::uint64) < a then [MemoryManager_Return (a - m)] else []) = []"
  by simp

lemma completions_excess [simp]:
  "completions (if (m::uint64) < a then [MemoryManager_Return (a - m)] else []) = 0"
  by simp

lemma finalize_then_cleanUp:
  fixes udc
  defines "udc' \<equiv> managedCleanUp (managedFinalizeRecovery udc)"
  shows "physicalChunkData udc' = None"
    and "recoveryComplete udc'"
    and "chunksRemaining (download udc') = chunksRemaining (download udc) - 1"
    and "completions (newCalls udc udc') = (if chunksRemaining (download udc') = 0 then 1 else 0)"
    and "memoryAllocated udc' = min (memoryAllocated udc) (piecesRegistered udc * staticPieceSize udc)"
    and "returned (newCalls udc udc') =
           unat (memoryAllocated udc) - unat (piecesRegistered udc * staticPieceSize udc)"
proof -
  let ?u = "managedFinalizeRecovery udc"
  have b: "bound ?u = piecesRegistered udc * staticPieceSize udc"
    by (simp add: bound_recoveryComplete)
  show "physicalChunkData udc' = None" "recoveryComplete udc'"
    "chunksRemaining (download udc') = chunksRemaining (download udc) - 1"
    by (simp_all add: udc'_def managedCleanUp_flags)
  show "memoryAllocated udc' = min (memoryAllocated udc) (piecesRegistered udc * staticPieceSize udc)"
    by (simp add: udc'_def managedCleanUp_flags b)
  have c: "newCalls udc udc' =
     (if chunksRemaining (download udc) - 1 = 0 then [Download_markComplete] else [])
     @ (if starved ?u
        then [Download_managedFail (ChunkFailed (staticChunkIndex ?u)
                (AddContext errNotEnoughWorkers
                   (WorkersContext (workersRemaining ?u) (piecesCompleted ?u)
                      (MinPieces (erasureCode ?u)))))]
        else [])
     @ (if bound ?u < memoryAllocated ?u
        then [MemoryManager_Return (memoryAllocated ?u - bound ?u)] else [])
     @ (if required ?u then map Go_threadedPerformDownloadChunkJob (workersStandby ?u) else [])"
    unfolding udc'_def
    by (rule newCalls_append) (simp only: managedCleanUp_calls managedFinalizeRecovery_calls append_assoc)
  show "completions (newCalls udc udc') = (if chunksRemaining (download udc') = 0 then 1 else 0)"
    unfolding c by (simp add: udc'_def)
  show "returned (newCalls udc udc') =
           unat (memoryAllocated udc) - unat (piecesRegistered udc * staticPieceSize udc)"
    unfolding c by (simp add: b unat_sub word_less_nat_alt word_le_nat_alt)
qed

lemma fail_then_cleanUp:
  fixes udc err
  defines "udc' \<equiv> managedCleanUp (fail err udc)"
  shows "failed udc'"
    and "failures (newCalls udc udc') = [ChunkFailed (staticChunkIndex udc) err]"
    and "chunksRemaining (download udc') = chunksRemaining (download udc)"
    and "completions (newCalls udc udc') = 0"
    and "physicalChunkData udc' = wipe (physicalChunkData udc)"
proof -
  let ?u = "fail err udc"
  have f: "failed ?u" by simp
  show "failed udc'" "chunksRemaining (download udc') = chunksRemaining (download udc)"
    "physicalChunkData udc' = wipe (physicalChunkData udc)"
    by (simp_all add: udc'_def managedCleanUp_flags)
  have c: "newCalls udc udc' =
     [Download_managedFail (ChunkFailed (staticChunkIndex udc) err)]
     @ (if bound ?u < memoryAllocated ?u
        then [MemoryManager_Return (memoryAllocated ?u - bound ?u)] else [])"
    unfolding udc'_def
    by (rule newCalls_append) (simp add: managedCleanUp_calls fail_calls)
  show "failures (newCalls udc udc') = [ChunkFailed (staticChunkIndex udc) err]"
    unfolding c by simp
  show "completions (newCalls udc udc') = 0"
    unfolding c by simp
qed

subsection \<open>Ceiling division\<close>

lemma ceilDiv_bounds:
  assumes "0 < b"
  shows "a \<le> ceilDiv a b * b \<and> ceilDiv a b * b < a + b"
proof -
  let ?q = "(a + b - 1) div b" and ?r = "(a + b - 1) mod b"
  have e: "?q * b + ?r = a + b - 1" by simp
  have r: "?r < b" using assms by simp
  from e r assms show ?thesis unfolding ceilDiv_def by linarith
qed

lemma segmentsForRecovery_partial:
  assumes "SupportsPartialEncoding rs = (segmentSize, supportsPartial)"
      and "MinPieces rs * segmentSize \<noteq> 0"
  shows "segmentsForRecovery chunkFetchOffset chunkFetchLength rs =
    Inr (of_nat (unat chunkFetchOffset div unat (MinPieces rs * segmentSize)),
         of_nat (ceilDiv (unat chunkFetchOffset + unat chunkFetchLength) (unat (MinPieces rs * segmentSize))
                 - unat chunkFetchOffset div unat (MinPieces rs * segmentSize)))"
  using assms by (simp add: segmentsForRecovery_def Let_def)

subsection \<open>Signed counters\<close>

lemma signed_take_bit_63:
  "- (2 ^ 63) \<le> k \<Longrightarrow> k < 2 ^ 63 \<Longrightarrow> signed_take_bit 63 k = (k::int)"
  by (rule signed_take_bit_int_eq_self) simp_all

lemma sint_of_nat_64:
  assumes "int n < 2 ^ 63"
  shows "sint (of_nat n :: 64 word) = int n"
proof -
  have "sint (of_nat n :: 64 word) = signed_take_bit 63 (int n)"
    using sint_sbintrunc' [where ?'a = 64 and bin = "int n"] by simp
  also have "\<dots> = int n"
  proof (rule signed_take_bit_63)
    have "(0::int) \<le> int n" "(0::int) < 2 ^ 63" by simp_all
    then show "- (2 ^ 63) \<le> int n" by linarith
    show "int n < 2 ^ 63" by (rule assms)
  qed
  finally show ?thesis .
qed





subsection \<open>Counting completed pieces\<close>

lemma popcount_Nil [simp]: "popcount [] = 0"
  by (simp add: popcount_def)

lemma popcount_Cons [simp]: "popcount (b # bs) = (if b then Suc (popcount bs) else popcount bs)"
  by (simp add: popcount_def)

lemma popcount_le: "popcount bs \<le> length bs"
  by (simp add: popcount_def)

lemma popcount_update:
  "i < length bs \<Longrightarrow> \<not> bs ! i \<Longrightarrow> popcount (bs[i := True]) = Suc (popcount bs)"
proof (induction bs arbitrary: i)
  case Nil
  then show ?case by simp
next
  case (Cons b bs)
  then show ?case by (cases i) simp_all
qed

lemma popcount_less:
  "i < length bs \<Longrightarrow> \<not> bs ! i \<Longrightarrow> popcount bs < length bs"
proof (induction bs arbitrary: i)
  case Nil
  then show ?case by simp
next
  case (Cons b bs)
  show ?case
  proof (cases i)
    case 0
    with Cons.prems popcount_le [of bs] show ?thesis by simp
  next
    case (Suc k)
    with Cons.prems Cons.IH [of k] show ?thesis by simp
  qed
qed

lemma countCompleted_eq: "countCompleted bs completed = completed + of_nat (popcount bs)"
  by (induction bs arbitrary: completed) simp_all

lemma word_of_sint:
  fixes w :: "64 word"
  assumes "sint w = int n"
  shows "w = of_nat n"
proof -
  have "w = word_of_int (sint w)"
    by simp
  with assms show ?thesis by simp
qed

lemma consistent_marked:
  assumes "consistent udc" and "sliceLen udc"
      and "unat p < length (completedPieces udc)" and "\<not> completedPieces udc ! unat p"
  shows "consistent (marked p udc)"
    and "piecesCompleted udc + 1 = of_nat (Suc (popcount (completedPieces udc)))"
proof -
  let ?n = "popcount (completedPieces udc)"
  from assms(1) have s: "sint (piecesCompleted udc) = int ?n"
    by (simp add: consistent_def)
  then have w: "piecesCompleted udc = of_nat ?n"
    by (rule word_of_sint)
  then show e: "piecesCompleted udc + 1 = of_nat (Suc ?n)"
    by simp
  from popcount_less [OF assms(3) assms(4)] have "Suc ?n \<le> length (completedPieces udc)"
    by simp
  with assms(2) have "Suc ?n < 2 ^ 63"
    by (simp add: sliceLen_def)
  then have "int (Suc ?n) < int (2 ^ 63)"
    by (simp only: of_nat_less_iff)
  then have "int (Suc ?n) < 2 ^ 63"
    by simp
  then have "sint (of_nat (Suc ?n) :: 64 word) = int (Suc ?n)"
    by (rule sint_of_nat_64)
  then have "sint (piecesCompleted udc + 1) = int (Suc ?n)"
    by (simp only: e)
  then have "sint (piecesCompleted (marked p udc)) = int (popcount (completedPieces (marked p udc)))"
    by (simp only: marked_fields popcount_update [OF assms(3) assms(4)])
  then show "consistent (marked p udc)"
    by (simp only: consistent_def)
qed

lemma markPieceCompleted_exclusive:
  assumes "consistent udc" and "sliceLen udc"
      and "unat p < length (completedPieces udc)" and "\<not> completedPieces udc ! unat p"
  shows "markPieceCompleted DEBUG p udc = Inr (marked p udc)"
proof -
  have "countCompleted ((completedPieces udc)[unat p := True]) 0 = piecesCompleted udc + 1"
    using consistent_marked(2) [OF assms] popcount_update [OF assms(3) assms(4)]
    by (simp add: countCompleted_eq)
  with assms(3) show ?thesis
    unfolding markPieceCompleted_def Let_def marked_def[symmetric]
    by simp
qed

lemma consistent_cong:
  "completedPieces a = completedPieces b \<Longrightarrow> piecesCompleted a = piecesCompleted b \<Longrightarrow>
   consistent a = consistent b"
  by (simp add: consistent_def)

lemma sliceLen_cong:
  "length (completedPieces a) = length (completedPieces b) \<Longrightarrow> sliceLen a = sliceLen b"
  by (simp add: sliceLen_def)

lemma perform_consistent:
  assumes "perform DEBUG c udc = Inr udc'" and "exclusive c udc"
      and "consistent udc" and "sliceLen udc"
  shows "consistent udc' \<and> sliceLen udc'"
  using assms(1)
proof (rule perform_Inr)
  fix p
  assume c: "c = MarkPieceCompleted p" and u: "udc' = marked p udc"
    and r: "unat p < length (completedPieces udc)"
  from assms(2) c r have "\<not> completedPieces udc ! unat p" by simp
  from consistent_marked(1) [OF assms(3) assms(4) r this] u assms(4)
  show ?thesis by (simp add: sliceLen_def)
qed (use assms(3) assms(4) in \<open>simp_all add: consistent_def sliceLen_def\<close>)

lemma performAll_consistent:
  "performAll DEBUG cs udc = Inr udc' \<Longrightarrow> orderly DEBUG cs udc \<Longrightarrow>
   consistent udc \<Longrightarrow> sliceLen udc \<Longrightarrow> consistent udc' \<and> sliceLen udc'"
proof (induction cs arbitrary: udc)
  case Nil
  then show ?case by simp
next
  case (Cons c cs)
  from Cons.prems(1) obtain udc1 where s: "perform DEBUG c udc = Inr udc1"
    and r: "performAll DEBUG cs udc1 = Inr udc'"
    by (auto split: sum.splits)
  from Cons.prems(2) s have x: "exclusive c udc" and o: "orderly DEBUG cs udc1"
    by simp_all
  from perform_consistent [OF s x Cons.prems(3) Cons.prems(4)]
  have "consistent udc1" "sliceLen udc1" by simp_all
  from Cons.IH [OF r o this] show ?case .
qed

lemma orderly_take: "orderly DEBUG cs udc \<Longrightarrow> orderly DEBUG (take n cs) udc"
proof (induction cs arbitrary: n udc)
  case Nil
  then show ?case by simp
next
  case (Cons c cs)
  show ?case
  proof (cases n)
    case 0
    then show ?thesis by simp
  next
    case (Suc k)
    with Cons.prems Cons.IH [of _ k] show ?thesis
      by (auto split: sum.splits)
  qed
qed

lemma completedPieces_managedRemoveWorker [simp]:
  "completedPieces (managedRemoveWorker udc) = completedPieces udc"
  "piecesCompleted (managedRemoveWorker udc) = piecesCompleted udc"
  by (simp_all add: managedRemoveWorker_def)

section \<open>The claims\<close>

subsection \<open>The stall check of managedCleanUp\<close>

text \<open>
  C1. A call of \<^verbatim>\<open>managedCleanUp\<close> marks the chunk failed with
  \<^verbatim>\<open>errNotEnoughWorkers\<close> exactly when, at entry, the workers remaining plus the
  pieces completed are fewer than \<^verbatim>\<open>MinPieces\<close> and the chunk is not failed
  already: then the flag is set and \<^verbatim>\<open>managedFail\<close> is called once, with that
  error in its context; otherwise the flag is as it was and \<^verbatim>\<open>managedFail\<close> is
  not called.
\<close>

theorem managedCleanUp_fails_when_starved:
  "(workersRemaining udc + piecesCompleted udc <s MinPieces (erasureCode udc) \<and> \<not> failed udc \<longrightarrow>
      failed (managedCleanUp udc) \<and>
      failures (newCalls udc (managedCleanUp udc)) =
        [ChunkFailed (staticChunkIndex udc)
           (AddContext errNotEnoughWorkers
              (WorkersContext (workersRemaining udc) (piecesCompleted udc)
                 (MinPieces (erasureCode udc))))])
   \<and> (\<not> (workersRemaining udc + piecesCompleted udc <s MinPieces (erasureCode udc) \<and> \<not> failed udc) \<longrightarrow>
      failed (managedCleanUp udc) = failed udc \<and>
      failures (newCalls udc (managedCleanUp udc)) = [])"
  unfolding starved_def[symmetric]
  by (simp add: newCalls_managedCleanUp managedCleanUp_flags)

theorem managedCleanUp_fails_when_starved_witness:
  "workersRemaining (chunk\<lparr>workersRemaining := 2\<rparr>) + piecesCompleted (chunk\<lparr>workersRemaining := 2\<rparr>)
     <s MinPieces (erasureCode (chunk\<lparr>workersRemaining := 2\<rparr>))
   \<and> \<not> failed (chunk\<lparr>workersRemaining := 2\<rparr>)
   \<and> failed (managedCleanUp (chunk\<lparr>workersRemaining := 2\<rparr>))
   \<and> failures (newCalls (chunk\<lparr>workersRemaining := 2\<rparr>) (managedCleanUp (chunk\<lparr>workersRemaining := 2\<rparr>))) =
        [ChunkFailed 0 (AddContext errNotEnoughWorkers (WorkersContext 2 0 3))]"
proof -
  have h: "workersRemaining (chunk\<lparr>workersRemaining := 2\<rparr>) + piecesCompleted (chunk\<lparr>workersRemaining := 2\<rparr>)
     <s MinPieces (erasureCode (chunk\<lparr>workersRemaining := 2\<rparr>))
   \<and> \<not> failed (chunk\<lparr>workersRemaining := 2\<rparr>)"
    by (simp add: chunk_def coder_def word_sless_alt)
  show ?thesis
    using h managedCleanUp_fails_when_starved [of "chunk\<lparr>workersRemaining := 2\<rparr>"]
    by (simp add: chunk_def coder_def)
qed

subsection \<open>The memory that returnMemory gives back\<close>

text \<open>
  C3, as the specification has it, takes the bound to be (workers remaining + pieces
  completed) times the piece size until recovery is complete. The code has a third case:
  once \<^verbatim>\<open>MinPieces\<close> pieces are complete and recovery is not, the bound is (pieces
  completed + pieces registered) times the piece size. In \<open>recovering\<close> the
  specification's bound before recovery is 240 bytes, so that nothing would be returned,
  and its bound after recovery is 40 bytes; the code keeps 160 bytes of the 200.
\<close>

theorem returnMemory_spec_formula_counterexample:
  "memoryAllocated recovering = 200 \<and>
   specUsedMemory recovering = 240 \<and>
   memoryAllocated (returnMemory recovering) = 160 \<and>
   memoryAllocated (returnMemory recovering)
     \<noteq> min (memoryAllocated recovering) (specUsedMemory recovering) \<and>
   memoryAllocated (returnMemory recovering)
     \<noteq> min (memoryAllocated recovering) (piecesRegistered recovering * staticPieceSize recovering)"
  by (simp add: recovering_def chunk_def coder_def returnMemory_def specUsedMemory_def Let_def word_sle_eq)

text \<open>
  C3, amended. \<^verbatim>\<open>returnMemory\<close> returns exactly the excess of the allocation over
  the bound \<open>maxMemory\<close> (nothing when there is no excess), leaves the minimum of the
  two allocated and never increases the allocation, where the bound has the three cases of
  the code: pieces registered times the piece size once recovery is complete, else (pieces
  completed + pieces registered) times the piece size once \<^verbatim>\<open>MinPieces\<close> pieces
  are complete, else (workers remaining + pieces completed) times the piece size.
\<close>

theorem returnMemory_returns_excess:
  "memoryAllocated (returnMemory udc) = min (memoryAllocated udc) (maxMemory udc) \<and>
   memoryAllocated (returnMemory udc) \<le> memoryAllocated udc \<and>
   newCalls udc (returnMemory udc) =
     (if maxMemory udc < memoryAllocated udc
      then [MemoryManager_Return (memoryAllocated udc - maxMemory udc)] else []) \<and>
   returned (newCalls udc (returnMemory udc)) = unat (memoryAllocated udc) - unat (maxMemory udc)"
  by (simp add: returnMemory_memoryAllocated newCalls_returnMemory returned_excess del: returned.simps)

theorem returnMemory_returns_excess_witness:
  "memoryAllocated (returnMemory recovering) = 160 \<and>
   newCalls recovering (returnMemory recovering) = [MemoryManager_Return 40] \<and>
   returned (newCalls recovering (returnMemory recovering)) = 40"
  using returnMemory_returns_excess [of recovering]
  by (simp add: recovering_def chunk_def coder_def maxMemory_def word_sle_eq)

subsection \<open>Memory of a chunk that fails\<close>

text \<open>
  C7, as the specification has it, says that no memory is allocated after the event whose
  clean-up marks the chunk failed. In \<open>fetching\<close> two pieces are registered when a
  worker is removed: the chunk fails and the memory of the two pieces, 80 bytes, stays
  allocated.
\<close>

theorem failed_chunk_keeps_memory_counterexample:
  "\<not> failed fetching \<and> failed (managedRemoveWorker fetching) \<and>
   memoryAllocated (managedRemoveWorker fetching) = 80"
  by (simp add: managedRemoveWorker_def decrementWorkers_def managedCleanUp_flags starved_def bound_def
        fetching_def chunk_def coder_def word_sless_alt)

text \<open>
  C7, amended. After a clean-up that marks the chunk failed the allocation is the minimum
  of the allocation before and pieces registered times the piece size: the memory of the
  pieces that workers are still fetching is kept. It is zero when no piece is registered.
\<close>

theorem failure_keeps_registered_memory:
  assumes "\<not> failed udc" and "failed (managedCleanUp udc)"
  shows "memoryAllocated (managedCleanUp udc) =
           min (memoryAllocated udc) (piecesRegistered udc * staticPieceSize udc) \<and>
         (piecesRegistered udc = 0 \<longrightarrow> memoryAllocated (managedCleanUp udc) = 0)"
proof -
  from assms have "starved udc" by (simp add: managedCleanUp_flags)
  then have "memoryAllocated (managedCleanUp udc) =
           min (memoryAllocated udc) (piecesRegistered udc * staticPieceSize udc)"
    by (simp add: managedCleanUp_flags bound_def)
  then show ?thesis by (simp add: min_def)
qed

theorem failure_keeps_registered_memory_witness:
  "\<not> failed (chunk\<lparr>workersRemaining := 2\<rparr>) \<and> failed (managedCleanUp (chunk\<lparr>workersRemaining := 2\<rparr>)) \<and>
   piecesRegistered (chunk\<lparr>workersRemaining := 2\<rparr>) = 0 \<and>
   memoryAllocated (managedCleanUp (chunk\<lparr>workersRemaining := 2\<rparr>)) = 0"
proof -
  have h1: "\<not> failed (chunk\<lparr>workersRemaining := 2\<rparr>)"
    by (simp add: chunk_def)
  have h2: "failed (managedCleanUp (chunk\<lparr>workersRemaining := 2\<rparr>))"
    by (simp add: managedCleanUp_flags starved_def chunk_def coder_def word_sless_alt)
  have h3: "piecesRegistered (chunk\<lparr>workersRemaining := 2\<rparr>) = 0"
    by (simp add: chunk_def)
  from failure_keeps_registered_memory [OF h1 h2] h1 h2 h3 show ?thesis by simp
qed

subsection \<open>Standby workers\<close>

text \<open>
  C8. \<^verbatim>\<open>managedCleanUp\<close> dispatches the standby workers exactly when the chunk is
  not failed (after the stall check), fewer than \<^verbatim>\<open>MinPieces\<close> pieces are
  complete and fewer pieces are registered than \<^verbatim>\<open>MinPieces\<close> + overdrive - pieces
  completed. When it dispatches, one job is started for each standby worker, in order,
  and the standby list is empty afterwards; otherwise no job is started and the list is
  as it was.
\<close>

theorem managedCleanUp_dispatches:
  "jobs (newCalls udc (managedCleanUp udc)) =
     (if \<not> failed (managedCleanUp udc) \<and>
         piecesCompleted udc <s MinPieces (erasureCode udc) \<and>
         piecesRegistered udc <s MinPieces (erasureCode udc) + staticOverdrive udc - piecesCompleted udc
      then workersStandby udc else []) \<and>
   workersStandby (managedCleanUp udc) =
     (if \<not> failed (managedCleanUp udc) \<and>
         piecesCompleted udc <s MinPieces (erasureCode udc) \<and>
         piecesRegistered udc <s MinPieces (erasureCode udc) + staticOverdrive udc - piecesCompleted udc
      then [] else workersStandby udc) \<and>
   failed (managedCleanUp udc) =
     (failed udc \<or> workersRemaining udc + piecesCompleted udc <s MinPieces (erasureCode udc))"
proof -
  have r: "(\<not> failed (managedCleanUp udc) \<and>
         piecesCompleted udc <s MinPieces (erasureCode udc) \<and>
         piecesRegistered udc <s MinPieces (erasureCode udc) + staticOverdrive udc - piecesCompleted udc)
       = required udc"
    unfolding required_iff managedCleanUp_flags signed.not_le by blast
  have f: "failed (managedCleanUp udc) =
     (failed udc \<or> workersRemaining udc + piecesCompleted udc <s MinPieces (erasureCode udc))"
    unfolding managedCleanUp_flags starved_def by blast
  have j: "jobs (newCalls udc (managedCleanUp udc)) = (if required udc then workersStandby udc else [])"
    by (simp add: newCalls_managedCleanUp)
  have s: "workersStandby (managedCleanUp udc) = (if required udc then [] else workersStandby udc)"
    by (simp add: managedCleanUp_flags)
  show ?thesis unfolding r using f j s by blast
qed

theorem managedCleanUp_dispatches_witness:
  "jobs (newCalls waiting (managedCleanUp waiting)) = [7, 9] \<and>
   workersStandby (managedCleanUp waiting) = [] \<and> \<not> failed (managedCleanUp waiting)"
  using managedCleanUp_dispatches [of waiting]
  by (simp add: waiting_def chunk_def coder_def word_sless_alt)


subsection \<open>The range of a partial recovery\<close>

text \<open>
  C2. When the coder supports partial encoding with segment size \<open>segmentSize\<close>,
  \<^verbatim>\<open>bytesToRecover\<close> returns the number of segments times \<open>MinPieces \<times>
  segmentSize\<close>, the number of segments being the ceiling of (offset + length) / (MinPieces
  \<times> segmentSize) minus the floor of offset / (MinPieces \<times> segmentSize), and
  \<^verbatim>\<open>recoveredDataOffset\<close> returns the offset modulo \<open>MinPieces \<times>
  segmentSize\<close>; when it does not, they return the chunk size and the offset. For
  segments of 8 bytes, 3 pieces and the range from 10 to 30 of a chunk of 120 bytes they
  return 48 and 10. (A recovered segment size of zero is a division by zero.)
\<close>

theorem range_functions:
  "(SupportsPartialEncoding rs = (segmentSize, True) \<and> MinPieces rs * segmentSize \<noteq> 0 \<longrightarrow>
      bytesToRecover fetchOffset fetchLength chunkSize rs =
        Inr (of_nat (ceilDiv (unat fetchOffset + unat fetchLength) (unat (MinPieces rs * segmentSize))
                     - unat fetchOffset div unat (MinPieces rs * segmentSize))
             * (MinPieces rs * segmentSize)) \<and>
      recoveredDataOffset fetchOffset rs = Inr (fetchOffset mod (MinPieces rs * segmentSize)))
   \<and> (SupportsPartialEncoding rs = (segmentSize, False) \<longrightarrow>
      bytesToRecover fetchOffset fetchLength chunkSize rs = Inr chunkSize \<and>
      recoveredDataOffset fetchOffset rs = Inr fetchOffset)
   \<and> bytesToRecover 10 20 120 \<lparr> MinPieces = 3, SupportsPartialEncoding = (8, True) \<rparr> = Inr 48
   \<and> recoveredDataOffset 10 \<lparr> MinPieces = 3, SupportsPartialEncoding = (8, True) \<rparr> = Inr 10"
proof -
  have a: "bytesToRecover fetchOffset fetchLength chunkSize rs =
        Inr (of_nat (ceilDiv (unat fetchOffset + unat fetchLength) (unat (MinPieces rs * segmentSize))
                     - unat fetchOffset div unat (MinPieces rs * segmentSize))
             * (MinPieces rs * segmentSize))"
    if "SupportsPartialEncoding rs = (segmentSize, True)" "MinPieces rs * segmentSize \<noteq> 0"
    using that by (simp add: bytesToRecover_def segmentsForRecovery_partial)
  have b: "recoveredDataOffset fetchOffset rs = Inr (fetchOffset mod (MinPieces rs * segmentSize))"
    if "SupportsPartialEncoding rs = (segmentSize, True)" "MinPieces rs * segmentSize \<noteq> 0"
    using that by (simp add: recoveredDataOffset_def)
  have c: "bytesToRecover fetchOffset fetchLength chunkSize rs = Inr chunkSize \<and>
      recoveredDataOffset fetchOffset rs = Inr fetchOffset"
    if "SupportsPartialEncoding rs = (segmentSize, False)"
    using that by (simp add: bytesToRecover_def recoveredDataOffset_def)
  have d: "bytesToRecover 10 20 120 \<lparr> MinPieces = 3, SupportsPartialEncoding = (8, True) \<rparr> = Inr 48"
    by (simp add: bytesToRecover_def segmentsForRecovery_def ceilDiv_def)
  have e: "recoveredDataOffset 10 \<lparr> MinPieces = 3, SupportsPartialEncoding = (8, True) \<rparr> = Inr 10"
    by (simp add: recoveredDataOffset_def)
  from a b c d e show ?thesis by blast
qed

theorem range_functions_witness:
  "SupportsPartialEncoding coder = (8, True) \<and> MinPieces coder * 8 \<noteq> 0 \<and>
   bytesToRecover 10 20 120 coder = Inr 48 \<and> recoveredDataOffset 10 coder = Inr 10 \<and>
   bytesToRecover 10 20 120 (coder\<lparr>SupportsPartialEncoding := (8, False)\<rparr>) = Inr 120 \<and>
   recoveredDataOffset 10 (coder\<lparr>SupportsPartialEncoding := (8, False)\<rparr>) = Inr 10"
proof -
  have h: "SupportsPartialEncoding coder = (8, True) \<and> MinPieces coder * 8 \<noteq> 0"
    by (simp add: coder_def)
  have g: "SupportsPartialEncoding (coder\<lparr>SupportsPartialEncoding := (8, False)\<rparr>) = (8, False)"
    by simp
  show ?thesis
    using h g range_functions [of coder 8 10 20 120]
      range_functions [of "coder\<lparr>SupportsPartialEncoding := (8, False)\<rparr>" 8 10 20 120]
    by (simp add: coder_def ceilDiv_def)
qed

subsection \<open>The end of a recovery\<close>

text \<open>
  C5. When the destination's \<^verbatim>\<open>WritePieces\<close> returns no error,
  \<^verbatim>\<open>threadedRecoverLogicalData\<close> returns no error and leaves the physical chunk
  data nil and \<^verbatim>\<open>recoveryComplete\<close> set; the parent download's
  \<^verbatim>\<open>chunksRemaining\<close> is one less, \<^verbatim>\<open>markComplete\<close> is called once if
  that is zero and not at all otherwise, and the memory above that of the registered
  pieces is returned to the memory manager.
\<close>

theorem recovery_finished:
  assumes "recoveredDataOffset (staticFetchOffset udc) (erasureCode udc) = Inr dataOffset"
      and "destination udc = Some WritePieces"
      and "WritePieces (erasureCode udc) (physicalChunkData udc) dataOffset
             (staticWriteOffset udc) (staticFetchLength udc) = None"
  shows "\<exists>udc'. threadedRecoverLogicalData udc = Inr (udc', None) \<and>
           physicalChunkData udc' = None \<and> recoveryComplete udc' \<and>
           chunksRemaining (download udc') = chunksRemaining (download udc) - 1 \<and>
           completions (newCalls udc udc') = (if chunksRemaining (download udc') = 0 then 1 else 0) \<and>
           memoryAllocated udc' = min (memoryAllocated udc) (piecesRegistered udc * staticPieceSize udc) \<and>
           returned (newCalls udc udc') =
             unat (memoryAllocated udc) - unat (piecesRegistered udc * staticPieceSize udc)"
proof -
  have "threadedRecoverLogicalData udc = Inr (managedCleanUp (managedFinalizeRecovery udc), None)"
    using assms by (simp add: threadedRecoverLogicalData_def)
  with finalize_then_cleanUp [where udc=udc] show ?thesis by blast
qed


theorem recovery_finished_witness:
  "recoveredDataOffset (staticFetchOffset written) (erasureCode written) = Inr 0 \<and>
   destination written = Some goodSink \<and>
   goodSink (erasureCode written) (physicalChunkData written) 0
     (staticWriteOffset written) (staticFetchLength written) = None \<and>
   (\<exists>udc'. threadedRecoverLogicalData written = Inr (udc', None) \<and>
      physicalChunkData udc' = None \<and> recoveryComplete udc' \<and>
      chunksRemaining (download udc') = 0 \<and> completions (newCalls written udc') = 1 \<and>
      memoryAllocated udc' = 0 \<and> returned (newCalls written udc') = 200)"
proof -
  have h1: "recoveredDataOffset (staticFetchOffset written) (erasureCode written) = Inr 0"
    by (simp add: recoveredDataOffset_def written_def chunk_def coder_def)
  have h2: "destination written = Some goodSink"
    by (simp add: written_def chunk_def)
  have h3: "goodSink (erasureCode written) (physicalChunkData written) 0
     (staticWriteOffset written) (staticFetchLength written) = None"
    by (simp add: goodSink_def)
  from recovery_finished [OF h1 h2 h3] obtain udc'
    where "threadedRecoverLogicalData written = Inr (udc', None)"
      "physicalChunkData udc' = None" "recoveryComplete udc'"
      "chunksRemaining (download udc') = chunksRemaining (download written) - 1"
      "completions (newCalls written udc') = (if chunksRemaining (download udc') = 0 then 1 else 0)"
      "memoryAllocated udc' = min (memoryAllocated written) (piecesRegistered written * staticPieceSize written)"
      "returned (newCalls written udc') =
         unat (memoryAllocated written) - unat (piecesRegistered written * staticPieceSize written)"
    by blast
  moreover have "chunksRemaining (download written) = 1" "memoryAllocated written = 200"
    "piecesRegistered written = 0"
    by (simp_all add: written_def chunk_def)
  ultimately have "threadedRecoverLogicalData written = Inr (udc', None) \<and>
      physicalChunkData udc' = None \<and> recoveryComplete udc' \<and>
      chunksRemaining (download udc') = 0 \<and> completions (newCalls written udc') = 1 \<and>
      memoryAllocated udc' = 0 \<and> returned (newCalls written udc') = 200"
    by simp
  with h1 h2 h3 show ?thesis by blast
qed

text \<open>
  C6. When \<^verbatim>\<open>WritePieces\<close> returns an error, the chunk is marked failed,
  \<^verbatim>\<open>managedFail\<close> is called once, with that error,
  \<^verbatim>\<open>managedFinalizeRecovery\<close> is not run (the state is that of
  \<^verbatim>\<open>fail\<close> followed by the deferred clean-up: \<^verbatim>\<open>chunksRemaining\<close> is
  unchanged, \<^verbatim>\<open>markComplete\<close> is not called, the chunk data is wiped but not
  nil), and whatever operations follow, the chunk stays failed and is never done.
\<close>

theorem write_error_fails_chunk:
  assumes "recoveredDataOffset (staticFetchOffset udc) (erasureCode udc) = Inr dataOffset"
      and "destination udc = Some WritePieces"
      and "WritePieces (erasureCode udc) (physicalChunkData udc) dataOffset
             (staticWriteOffset udc) (staticFetchLength udc) = Some err"
  shows "\<exists>udc'. threadedRecoverLogicalData udc = Inr (udc', Some (AddContext err UnableToWrite)) \<and>
           udc' = managedCleanUp (fail err udc) \<and>
           failed udc' \<and>
           failures (newCalls udc udc') = [ChunkFailed (staticChunkIndex udc) err] \<and>
           chunksRemaining (download udc') = chunksRemaining (download udc) \<and>
           completions (newCalls udc udc') = 0 \<and>
           physicalChunkData udc' = wipe (physicalChunkData udc) \<and>
           (\<forall>DEBUG cs udc''. performAll DEBUG cs udc' = Inr udc'' \<longrightarrow> failed udc'' \<and> \<not> Done udc'')"
proof -
  let ?udc' = "managedCleanUp (fail err udc)"
  have r: "threadedRecoverLogicalData udc = Inr (?udc', Some (AddContext err UnableToWrite))"
    using assms by (simp add: threadedRecoverLogicalData_def)
  have "failed udc'' \<and> \<not> Done udc''" if "performAll DEBUG cs ?udc' = Inr udc''" for DEBUG cs udc''
    using performAll_failed [OF that] fail_then_cleanUp(1) [where udc=udc and err=err] by (simp add: Done_def)
  with r fail_then_cleanUp [where udc=udc and err=err] show ?thesis by blast
qed

theorem write_error_fails_chunk_witness:
  "recoveredDataOffset (staticFetchOffset broken) (erasureCode broken) = Inr 0 \<and>
   destination broken = Some badSink \<and>
   badSink (erasureCode broken) (physicalChunkData broken) 0
     (staticWriteOffset broken) (staticFetchLength broken) = Some (ExternalError ''short write'') \<and>
   (\<exists>udc'. threadedRecoverLogicalData broken =
              Inr (udc', Some (AddContext (ExternalError ''short write'') UnableToWrite)) \<and>
      failed udc' \<and> \<not> Done udc' \<and>
      failures (newCalls broken udc') = [ChunkFailed 0 (ExternalError ''short write'')] \<and>
      chunksRemaining (download udc') = 1 \<and>
      physicalChunkData udc' = Some [None, None, None, None, None])"
proof -
  have h1: "recoveredDataOffset (staticFetchOffset broken) (erasureCode broken) = Inr 0"
    by (simp add: recoveredDataOffset_def broken_def written_def chunk_def coder_def)
  have h2: "destination broken = Some badSink"
    by (simp add: broken_def)
  have h3: "badSink (erasureCode broken) (physicalChunkData broken) 0
     (staticWriteOffset broken) (staticFetchLength broken) = Some (ExternalError ''short write'')"
    by (simp add: badSink_def)
  from write_error_fails_chunk [OF h1 h2 h3] obtain udc'
    where u: "threadedRecoverLogicalData broken =
               Inr (udc', Some (AddContext (ExternalError ''short write'') UnableToWrite))"
      "failed udc'"
      "failures (newCalls broken udc') = [ChunkFailed (staticChunkIndex broken) (ExternalError ''short write'')]"
      "chunksRemaining (download udc') = chunksRemaining (download broken)"
      "physicalChunkData udc' = wipe (physicalChunkData broken)"
      "\<forall>DEBUG cs udc''. performAll DEBUG cs udc' = Inr udc'' \<longrightarrow> failed udc'' \<and> \<not> Done udc''"
    by blast
  from u(6) have "performAll False [] udc' = Inr udc' \<longrightarrow> failed udc' \<and> \<not> Done udc'"
    by blast
  then have d: "\<not> Done udc'" by simp
  have "staticChunkIndex broken = 0" "chunksRemaining (download broken) = 1"
    "wipe (physicalChunkData broken) = Some [None, None, None, None, None]"
    by (simp_all add: broken_def written_def chunk_def wipe_def)
  with u d have "threadedRecoverLogicalData broken =
              Inr (udc', Some (AddContext (ExternalError ''short write'') UnableToWrite)) \<and>
      failed udc' \<and> \<not> Done udc' \<and>
      failures (newCalls broken udc') = [ChunkFailed 0 (ExternalError ''short write'')] \<and>
      chunksRemaining (download udc') = 1 \<and>
      physicalChunkData udc' = Some [None, None, None, None, None]"
    by simp
  with h1 h2 h3 show ?thesis by blast
qed

subsection \<open>A failed chunk counts as recovered\<close>

text \<open>
  C10. After \<^verbatim>\<open>fail\<close> both \<^verbatim>\<open>failed\<close> and
  \<^verbatim>\<open>recoveryComplete\<close> are set, every entry of the physical chunk data is nil and
  the destination is nil; both flags stay set under every sequence of operations that
  follows, so such a chunk is never done; and from any state in which \<^verbatim>\<open>failed\<close>
  implies \<^verbatim>\<open>recoveryComplete\<close>, every sequence of operations leads to a state in
  which it does.
\<close>

theorem fail_is_terminal:
  "failed (fail err udc) \<and> recoveryComplete (fail err udc) \<and> destination (fail err udc) = None \<and>
   (\<forall>ps. physicalChunkData (fail err udc) = Some ps \<longrightarrow> (\<forall>p\<in>set ps. p = None)) \<and>
   (\<forall>DEBUG cs udc'. performAll DEBUG cs (fail err udc) = Inr udc' \<longrightarrow>
      failed udc' \<and> recoveryComplete udc' \<and> \<not> Done udc') \<and>
   (\<forall>DEBUG cs udc0 udc'.
      (failed udc0 \<longrightarrow> recoveryComplete udc0) \<and> performAll DEBUG cs udc0 = Inr udc' \<longrightarrow>
      (failed udc' \<longrightarrow> recoveryComplete udc'))"
proof -
  have a: "failed (fail err udc) \<and> recoveryComplete (fail err udc) \<and> destination (fail err udc) = None"
    by simp
  have b: "\<forall>ps. physicalChunkData (fail err udc) = Some ps \<longrightarrow> (\<forall>p\<in>set ps. p = None)"
    using wipe_entries by auto
  have c: "failed udc' \<and> recoveryComplete udc' \<and> \<not> Done udc'"
    if "performAll DEBUG cs (fail err udc) = Inr udc'" for DEBUG cs udc'
    using performAll_failed [OF that] performAll_recoveryComplete [OF that] by (simp add: Done_def)
  have d: "failed udc' \<longrightarrow> recoveryComplete udc'"
    if "failed udc0 \<longrightarrow> recoveryComplete udc0" "performAll DEBUG cs udc0 = Inr udc'"
    for DEBUG cs udc0 udc'
    using performAll_invariant [OF that(2) that(1)] .
  from a b c d show ?thesis by blast
qed

theorem fail_is_terminal_witness:
  "physicalChunkData (fail errNotEnoughWorkers written) = Some [None, None, None, None, None] \<and>
   (\<exists>udc'. performAll False [ManagedFinalizeRecovery, ManagedRemoveWorker]
              (fail errNotEnoughWorkers written) = Inr udc' \<and>
      failed udc' \<and> recoveryComplete udc' \<and> \<not> Done udc')"
proof -
  have p: "physicalChunkData (fail errNotEnoughWorkers written) = Some [None, None, None, None, None]"
    by (simp add: written_def chunk_def wipe_def)
  have e: "performAll False [ManagedFinalizeRecovery, ManagedRemoveWorker]
              (fail errNotEnoughWorkers written) =
           Inr (managedRemoveWorker (managedFinalizeRecovery (fail errNotEnoughWorkers written)))"
    by simp
  from fail_is_terminal [of errNotEnoughWorkers written] e
  have "failed (managedRemoveWorker (managedFinalizeRecovery (fail errNotEnoughWorkers written))) \<and>
        recoveryComplete (managedRemoveWorker (managedFinalizeRecovery (fail errNotEnoughWorkers written))) \<and>
        \<not> Done (managedRemoveWorker (managedFinalizeRecovery (fail errNotEnoughWorkers written)))"
    by blast
  with p e show ?thesis by simp
qed


subsection \<open>The counter of completed pieces\<close>

text \<open>
  C4. In a chunk whose counter \<^verbatim>\<open>piecesCompleted\<close> equals the number of true
  entries of \<^verbatim>\<open>completedPieces\<close>, \<^verbatim>\<open>markPieceCompleted\<close> of a piece that
  is not yet completed returns (also under the sanity check of a debug build) and the
  equality holds again; and it holds after each operation of every sequence of operations
  in which no piece is marked completed twice. (The slice is shorter than \<open>2\<^sup>6\<^sup>3\<close>,
  as every Go slice.)
\<close>

theorem piecesCompleted_counts_completedPieces:
  assumes "consistent udc" and "sliceLen udc"
  shows "(unat p < length (completedPieces udc) \<and> \<not> completedPieces udc ! unat p \<longrightarrow>
           (\<exists>udc'. markPieceCompleted DEBUG p udc = Inr udc' \<and> consistent udc')) \<and>
         (\<forall>cs n udc'. orderly DEBUG cs udc \<and> performAll DEBUG (take n cs) udc = Inr udc' \<longrightarrow>
            consistent udc')"
proof -
  have a: "\<exists>udc'. markPieceCompleted DEBUG p udc = Inr udc' \<and> consistent udc'"
    if "unat p < length (completedPieces udc)" "\<not> completedPieces udc ! unat p"
    using markPieceCompleted_exclusive [OF assms that] consistent_marked(1) [OF assms that]
    by blast
  have b: "consistent udc'"
    if "orderly DEBUG cs udc" "performAll DEBUG (take n cs) udc = Inr udc'" for cs n udc'
    using performAll_consistent [OF that(2) orderly_take [OF that(1)] assms] by simp
  from a b show ?thesis by blast
qed


theorem piecesCompleted_counts_completedPieces_witness:
  "consistent chunk \<and> sliceLen chunk \<and>
   unat (2::uint64) < length (completedPieces chunk) \<and> \<not> completedPieces chunk ! unat (2::uint64) \<and>
   (\<exists>udc'. markPieceCompleted True 2 chunk = Inr udc' \<and> consistent udc') \<and>
   orderly False [MarkPieceCompleted 0, ManagedRemoveWorker, MarkPieceCompleted 1] chunk \<and>
   (\<exists>udc'. performAll False [MarkPieceCompleted 0, ManagedRemoveWorker, MarkPieceCompleted 1] chunk
             = Inr udc' \<and> consistent udc' \<and> piecesCompleted udc' = 2)"
proof -
  let ?cs = "[MarkPieceCompleted 0, ManagedRemoveWorker, MarkPieceCompleted 1]"
  let ?end = "marked 1 (managedRemoveWorker (marked 0 chunk))"
  have h1: "consistent chunk"
    by (simp add: consistent_def chunk_def)
  have h2: "sliceLen chunk"
    by (simp add: sliceLen_def chunk_def)
  have h3: "unat (2::uint64) < length (completedPieces chunk) \<and> \<not> completedPieces chunk ! unat (2::uint64)"
    by (simp add: chunk_def)
  have c: "completedPieces chunk = [False, False, False, False, False]"
    by (simp add: chunk_def)
  have m0: "markPieceCompleted False 0 chunk = Inr (marked 0 chunk)"
    unfolding markPieceCompleted_def Let_def marked_def[symmetric] by (simp add: c)
  have m1: "markPieceCompleted False 1 (managedRemoveWorker (marked 0 chunk)) = Inr ?end"
    unfolding markPieceCompleted_def Let_def marked_def[symmetric] by (simp add: c)
  have e: "performAll False ?cs chunk = Inr ?end"
    by (simp add: m0 m1)
  have o: "orderly False ?cs chunk"
    by (simp add: m0 m1 c)
  have p: "piecesCompleted ?end = 2"
    by (simp add: chunk_def)
  from piecesCompleted_counts_completedPieces [OF h1 h2, of 2 True] h3
  have a: "\<exists>udc'. markPieceCompleted True 2 chunk = Inr udc' \<and> consistent udc'"
    by blast
  from e have "performAll False (take 3 ?cs) chunk = Inr ?end"
    by simp
  with piecesCompleted_counts_completedPieces [OF h1 h2, of 2 False] o
  have "consistent ?end"
    by blast
  with e p have b: "\<exists>udc'. performAll False ?cs chunk = Inr udc' \<and> consistent udc' \<and> piecesCompleted udc' = 2"
    by blast
  from h1 h2 h3 a o b show ?thesis by blast
qed

subsection \<open>The workers remaining\<close>





end
